theory Spec2Isabelle
  imports Complex_Main
begin

section \<open>The transport application: tables, the linear program, the solve step\<close>

text \<open>
  The program is one class, \<open>TransportApp\<close> (\<open>src/transport_ro.py\<close>): four table widgets
  and a label, a static helper \<open>_read_table\<close> and the slot \<open>solve_transport\<close>, which reads
  the three input tables, posts a linear program to an external solver and shows the
  optimum. A finite Python float is idealised as a real number (no rounding, no solver
  tolerance); the values \<open>inf\<close>, \<open>-inf\<close> and \<open>nan\<close> are kept apart.
\<close>

subsection \<open>Table widgets\<close>

text \<open>
  A \<open>QTableWidget\<close>: its row and column counts and the text of the items set in it.
  \<open>cells t i j = None\<close> is a cell with no item. \<open>item\<close> is \<open>QTableWidget.item(i, j)\<close>,
  which gives no item outside the table.
\<close>

record qtable =
  rowCount :: nat
  columnCount :: nat
  cells :: "nat \<Rightarrow> nat \<Rightarrow> string option"

definition item :: "qtable \<Rightarrow> nat \<Rightarrow> nat \<Rightarrow> string option" where
  "item t i j = (if i < rowCount t \<and> j < columnCount t then cells t i j else None)"

text \<open>
  \<open>QTableWidget.setItem(i, j, item)\<close>. The widget keeps its items in one list, row after
  row, and stores the item at the position \<open>i * columnCount + j\<close> of that list whenever the
  position is inside the list; it does not look at the column on its own. So a column
  beyond the table lands in a cell of a later row, and only a position beyond the last
  cell is ignored.
\<close>

definition setItem :: "qtable \<Rightarrow> nat \<Rightarrow> nat \<Rightarrow> string \<Rightarrow> qtable" where
  "setItem t i j s =
     (let k = i * columnCount t + j
      in if k < rowCount t * columnCount t
         then t\<lparr>cells := (cells t)(k div columnCount t :=
                  (cells t (k div columnCount t))(k mod columnCount t := Some s))\<rparr>
         else t)"

subsection \<open>Reading a table (\<open>_read_table\<close>, lines 148-158)\<close>

text \<open>
  The exceptions the modelled code can raise: \<open>float(text)\<close> raises \<open>ValueError\<close> on a text
  that is not a number (the text is kept, as the message shows it), and the solver library
  raises its own error, \<open>GurobiError\<close>.
\<close>

datatype exn = ValueError string | GurobiError

text \<open>
  A Python float: a finite number, or one of \<open>inf\<close>, \<open>-inf\<close> and \<open>nan\<close>, which \<open>float\<close>
  returns for texts such as \<open>inf\<close>, \<open>-inf\<close>, \<open>nan\<close> and \<open>1e400\<close> without raising.
\<close>

datatype pyfl = is_Finite: Finite (real_of: real) | PosInf | NegInf | NaN

text \<open>
  Python's builtin \<open>float\<close> on a string is a parameter of the model: \<open>None\<close> is
  \<open>ValueError\<close>.
\<close>

type_synonym pyfloat = "string \<Rightarrow> pyfl option"

text \<open>
  Line 155: \<open>value = float(item.text()) if item and item.text() else 0\<close>.
\<close>

definition read_cell :: "pyfloat \<Rightarrow> qtable \<Rightarrow> nat \<Rightarrow> nat \<Rightarrow> exn + pyfl" where
  "read_cell float t i j =
     (case item t i j of
        None \<Rightarrow> Inr (Finite 0)
      | Some txt \<Rightarrow>
          if txt = [] then Inr (Finite 0)
          else (case float txt of None \<Rightarrow> Inl (ValueError txt) | Some v \<Rightarrow> Inr v))"

text \<open>The inner loop \<open>for j in range(cols)\<close>, over the column indices still to read.\<close>

fun read_row :: "pyfloat \<Rightarrow> qtable \<Rightarrow> nat \<Rightarrow> nat list \<Rightarrow> exn + pyfl list" where
  "read_row float t i [] = Inr []"
| "read_row float t i (j # js) =
     (case read_cell float t i j of
        Inl e \<Rightarrow> Inl e
      | Inr v \<Rightarrow> (case read_row float t i js of Inl e \<Rightarrow> Inl e | Inr row \<Rightarrow> Inr (v # row)))"

text \<open>The outer loop \<open>for i in range(rows)\<close>, over the row indices still to read.\<close>

fun read_rows :: "pyfloat \<Rightarrow> qtable \<Rightarrow> nat list \<Rightarrow> nat \<Rightarrow> exn + pyfl list list" where
  "read_rows float t [] cols = Inr []"
| "read_rows float t (i # is) cols =
     (case read_row float t i [0..<cols] of
        Inl e \<Rightarrow> Inl e
      | Inr row \<Rightarrow> (case read_rows float t is cols of Inl e \<Rightarrow> Inl e | Inr data \<Rightarrow> Inr (row # data)))"

definition read_table :: "pyfloat \<Rightarrow> qtable \<Rightarrow> nat \<Rightarrow> nat \<Rightarrow> exn + pyfl list list" where
  "read_table float t rows cols = read_rows float t [0..<rows] cols"

text \<open>
  For the concrete examples below: \<open>float\<close> on plain decimal literals, an optional sign,
  digits, and optionally a point and more digits (\<open>''12''\<close>, \<open>''-1''\<close>, \<open>''2.5''\<close>), and on
  the lower-case literals \<open>''inf''\<close>, \<open>''infinity''\<close> and \<open>''nan''\<close> with an optional sign.
  The general theorems hold for every \<open>float\<close>.
\<close>

definition digit_val :: "char \<Rightarrow> nat option" where
  "digit_val c = (if c \<in> set ''0123456789'' then Some (of_char c - 48) else None)"

fun nat_of_digits :: "nat \<Rightarrow> string \<Rightarrow> nat option" where
  "nat_of_digits acc [] = Some acc"
| "nat_of_digits acc (c # cs) =
     (case digit_val c of None \<Rightarrow> None | Some d \<Rightarrow> nat_of_digits (10 * acc + d) cs)"

definition unsigned_dec :: "string \<Rightarrow> real option" where
  "unsigned_dec s =
     (let ip = takeWhile (\<lambda>c. c \<noteq> CHR ''.'') s;
          rest = dropWhile (\<lambda>c. c \<noteq> CHR ''.'') s;
          fp = (if rest = [] then [] else tl rest)
      in if ip = [] \<and> fp = [] then None
         else (case nat_of_digits 0 (ip @ fp) of
                 None \<Rightarrow> None
               | Some n \<Rightarrow> Some (real n / 10 ^ length fp)))"

definition unsigned_float :: "bool \<Rightarrow> string \<Rightarrow> pyfl option" where
  "unsigned_float negative s =
     (if s = ''inf'' \<or> s = ''infinity'' then Some (if negative then NegInf else PosInf)
      else if s = ''nan'' then Some NaN
      else map_option (\<lambda>v. Finite (if negative then - v else v)) (unsigned_dec s))"

fun float_dec :: "string \<Rightarrow> pyfl option" where
  "float_dec [] = None"
| "float_dec (c # cs) =
     (if c = CHR ''-'' then unsigned_float True cs
      else if c = CHR ''+'' then unsigned_float False cs
      else unsigned_float False (c # cs))"

subsection \<open>The linear program posted to the solver (lines 122-131)\<close>

text \<open>
  The solver is an external library. Its model is kept as data: the variables with their
  lower bounds, the objective (minimised) and the constraints, each a linear expression,
  a sense and a right-hand side. A variable is named by its key \<open>(i, j)\<close> in the
  dictionary \<open>x\<close>.
\<close>

type_synonym var = "nat \<times> nat"

type_synonym linexpr = "(real \<times> var) list"

datatype sense = LE | GE

datatype constr = Constr linexpr sense real

record grb_model =
  vars :: "(var \<times> real) list"
  objective :: linexpr
  constrs :: "constr list"

text \<open>
  \<open>m.addVar(vtype=GRB.CONTINUOUS, name=...)\<close>: no bound is given, so the variable has the
  library's defaults, lower bound 0 and no upper bound.
\<close>

definition addVar :: "var \<Rightarrow> var \<times> real" where
  "addVar v = (v, 0)"

text \<open>
  Lines 122-131: one variable per cell, the objective \<open>couts[i][j] * x[i, j]\<close> summed over
  all cells, one constraint \<open>row sum <= offres[i]\<close> per source and one constraint
  \<open>column sum >= demandes[j]\<close> per destination. The lists are indexed below
  \<open>n_sources\<close> and \<open>n_dest\<close> only, the sizes they were read with.
\<close>

definition build_model ::
  "real list list \<Rightarrow> real list \<Rightarrow> real list \<Rightarrow> nat \<Rightarrow> nat \<Rightarrow> grb_model" where
  "build_model couts offres demandes n_sources n_dest =
     \<lparr>vars = [addVar (i, j). i \<leftarrow> [0..<n_sources], j \<leftarrow> [0..<n_dest]],
      objective = [(couts ! i ! j, (i, j)). i \<leftarrow> [0..<n_sources], j \<leftarrow> [0..<n_dest]],
      constrs =
        [Constr [(1, (i, j)). j \<leftarrow> [0..<n_dest]] LE (offres ! i). i \<leftarrow> [0..<n_sources]] @
        [Constr [(1, (i, j)). i \<leftarrow> [0..<n_sources]] GE (demandes ! j). j \<leftarrow> [0..<n_dest]]\<rparr>"

text \<open>A point of the program gives every variable a value.\<close>

definition lin_val :: "(var \<Rightarrow> real) \<Rightarrow> linexpr \<Rightarrow> real" where
  "lin_val x e = (\<Sum>(c, v)\<leftarrow>e. c * x v)"

fun satisfies :: "(var \<Rightarrow> real) \<Rightarrow> constr \<Rightarrow> bool" where
  "satisfies x (Constr e LE b) = (lin_val x e \<le> b)"
| "satisfies x (Constr e GE b) = (b \<le> lin_val x e)"

definition feasible :: "grb_model \<Rightarrow> (var \<Rightarrow> real) \<Rightarrow> bool" where
  "feasible m x =
     (list_all (\<lambda>(v, lb). lb \<le> x v) (vars m) \<and> list_all (satisfies x) (constrs m))"

definition is_optimal :: "grb_model \<Rightarrow> (var \<Rightarrow> real) \<Rightarrow> bool" where
  "is_optimal m x =
     (feasible m x \<and>
      (\<forall>y. feasible m y \<longrightarrow> lin_val x (objective m) \<le> lin_val y (objective m)))"

text \<open>
  What \<open>m.optimize()\<close> leaves in the model: a status, and with the status \<open>OPTIMAL\<close> the
  objective value \<open>m.objVal\<close> and the values \<open>x[i, j].x\<close>. The solver is not part of the
  program; the one thing assumed of it is that with the status \<open>OPTIMAL\<close> the values are
  an optimal point of the program posted and \<open>objVal\<close> is its objective. Every other
  status is left unconstrained. \<open>optimize m r\<close>: a run on \<open>m\<close> may end in \<open>r\<close>.
\<close>

datatype grb_status =
  OPTIMAL | INFEASIBLE | INF_OR_UNBD | UNBOUNDED | TIME_LIMIT | INTERRUPTED | NUMERIC | SUBOPTIMAL

record grb_result =
  status :: grb_status
  objVal :: real
  X :: "var \<Rightarrow> real"

definition optimize :: "grb_model \<Rightarrow> grb_result \<Rightarrow> bool" where
  "optimize m r =
     (status r = OPTIMAL \<longrightarrow>
        is_optimal m (X r) \<and> objVal r = lin_val (X r) (objective m))"

subsection \<open>The window and the solve step (\<open>solve_transport\<close>, lines 111-146)\<close>

text \<open>
  The widgets \<open>solve_transport\<close> touches. \<open>result_label\<close> holds the number shown after the
  label's fixed caption, empty before the first solution.
\<close>

record app =
  cost_table :: qtable
  offre_table :: qtable
  demande_table :: qtable
  result_table :: qtable
  result_label :: string

text \<open>
  Lines 113-119: the sizes come from the cost table; the supplies are the first entries
  of the rows of the supply table read as \<open>n_sources\<close> rows of one cell, the demands the
  first row of the demand table read as one row of \<open>n_dest\<close> cells.
\<close>

definition read_instance ::
  "pyfloat \<Rightarrow> app \<Rightarrow> exn + (pyfl list list \<times> pyfl list \<times> pyfl list)" where
  "read_instance float ui =
     (let n_sources = rowCount (cost_table ui);
          n_dest = columnCount (cost_table ui)
      in case read_table float (cost_table ui) n_sources n_dest of
           Inl e \<Rightarrow> Inl e
         | Inr couts \<Rightarrow>
             (case read_table float (offre_table ui) n_sources 1 of
                Inl e \<Rightarrow> Inl e
              | Inr offre_rows \<Rightarrow>
                  (case read_table float (demande_table ui) 1 n_dest of
                     Inl e \<Rightarrow> Inl e
                   | Inr demande_rows \<Rightarrow>
                       Inr (couts, map (\<lambda>row. row ! 0) offre_rows, demande_rows ! 0))))"

text \<open>
  The format \<open>:.2f\<close> on a real number: the sign, the integer part and two decimals,
  rounded to the nearest hundredth, a tie to the even one.
\<close>

definition round_half_even :: "real \<Rightarrow> int" where
  "round_half_even y =
     (let f = \<lfloor>y\<rfloor>; d = y - of_int f
      in if d < 1 / 2 then f else if 1 / 2 < d then f + 1 else if even f then f else f + 1)"

fun digits10 :: "nat \<Rightarrow> string" where
  "digits10 n =
     (if n < 10 then [''0123456789'' ! n]
      else digits10 (n div 10) @ [''0123456789'' ! (n mod 10)])"

definition fmt2 :: "real \<Rightarrow> string" where
  "fmt2 v =
     (let n = nat (round_half_even (\<bar>v\<bar> * 100))
      in (if v < 0 then ''-'' else []) @ digits10 (n div 100) @ ''.'' @
         [''0123456789'' ! (n mod 100 div 10), ''0123456789'' ! (n mod 10)])"

text \<open>
  Lines 136-141: the label takes the objective value, and every cell \<open>(i, j)\<close> of the
  result table the value of \<open>x[i, j]\<close>, row by row.
\<close>

definition show_solution :: "nat \<Rightarrow> nat \<Rightarrow> real \<Rightarrow> (var \<Rightarrow> real) \<Rightarrow> app \<Rightarrow> app" where
  "show_solution n_sources n_dest c x ui =
     ui\<lparr>result_label := fmt2 c,
        result_table :=
          fold (\<lambda>i t. fold (\<lambda>j t. setItem t i j (fmt2 (x (i, j)))) [0..<n_dest] t)
            [0..<n_sources] (result_table ui)\<rparr>"

text \<open>The values shown, before formatting: the shipment matrix \<open>x[i, j].x\<close>.\<close>

definition allocation :: "nat \<Rightarrow> nat \<Rightarrow> (var \<Rightarrow> real) \<Rightarrow> real list list" where
  "allocation n_sources n_dest x = map (\<lambda>i. map (\<lambda>j. x (i, j)) [0..<n_dest]) [0..<n_sources]"

text \<open>
  What one call does for its caller: \<open>Solved\<close> with the objective value and the shipment
  matrix it shows, \<open>Avertissement\<close> for the warning box "no optimal solution found" of the
  \<open>else\<close> branch (line 143), \<open>Erreur\<close> for the critical box of the \<open>except\<close> clause (line
  146) with the exception caught.
\<close>

datatype outcome = Solved real "real list list" | Avertissement | Erreur exn

text \<open>
  Lines 135-143, the branch on \<open>m.status == GRB.OPTIMAL\<close>: with this status the solution
  is shown; with any other status the warning box is shown, the same for all of them, and
  no widget is written.
\<close>

definition report :: "nat \<Rightarrow> nat \<Rightarrow> grb_result \<Rightarrow> app \<Rightarrow> outcome \<times> app" where
  "report n_sources n_dest r ui =
     (if status r = OPTIMAL
      then (Solved (objVal r) (allocation n_sources n_dest (X r)),
            show_solution n_sources n_dest (objVal r) (X r) ui)
      else (Avertissement, ui))"

text \<open>
  The values read that the solver library takes. The library is external; it checks the
  numbers it is given and is taken to refuse, with its error, a coefficient or a
  right-hand side that is \<open>inf\<close>, \<open>-inf\<close> or \<open>nan\<close>. \<open>fin_inst\<close> is an instance of
  finite values, as it is read; \<open>reals_of\<close> gives the numbers of such an instance.
\<close>

definition all_finite :: "pyfl list list \<times> pyfl list \<times> pyfl list \<Rightarrow> bool" where
  "all_finite inst =
     (case inst of (couts, offres, demandes) \<Rightarrow>
        list_all (list_all is_Finite) couts \<and> list_all is_Finite offres \<and>
        list_all is_Finite demandes)"

definition reals_of ::
  "pyfl list list \<times> pyfl list \<times> pyfl list \<Rightarrow> real list list \<times> real list \<times> real list" where
  "reals_of inst =
     (case inst of (couts, offres, demandes) \<Rightarrow>
        (map (map real_of) couts, map real_of offres, map real_of demandes))"

abbreviation fin_inst ::
  "real list list \<Rightarrow> real list \<Rightarrow> real list \<Rightarrow> pyfl list list \<times> pyfl list \<times> pyfl list" where
  "fin_inst couts offres demandes \<equiv> (map (map Finite) couts, map Finite offres, map Finite demandes)"

text \<open>
  \<open>solve_transport float ui out ui'\<close>: a call in the window state \<open>ui\<close> may end with \<open>out\<close>
  in the state \<open>ui'\<close>. The whole body runs inside one \<open>try\<close> (line 112) whose \<open>except\<close>
  clause (lines 145-146) shows the critical box and writes no widget.
  \<^item> \<open>raised\<close>: reading raises, before any model is built.
  \<^item> \<open>library_raised\<close>: the tables are read and the solver library raises between lines
    122 and 133. It does so for a value that is not finite, and it can do so for reasons
    of its own (its licence, its size limit), so this end is open to every call.
  \<^item> \<open>optimized\<close>: the tables are read, all values are finite, the model is built and
    optimised, and the result of the run is reported.
\<close>

inductive solve_transport :: "pyfloat \<Rightarrow> app \<Rightarrow> outcome \<Rightarrow> app \<Rightarrow> bool"
  for float :: pyfloat and ui :: app where
  raised:
    "read_instance float ui = Inl e \<Longrightarrow> solve_transport float ui (Erreur e) ui"
| library_raised:
    "read_instance float ui = Inr inst \<Longrightarrow> solve_transport float ui (Erreur GurobiError) ui"
| optimized:
    "read_instance float ui = Inr inst \<Longrightarrow>
     all_finite inst \<Longrightarrow>
     reals_of inst = (couts, offres, demandes) \<Longrightarrow>
     n_sources = rowCount (cost_table ui) \<Longrightarrow>
     n_dest = columnCount (cost_table ui) \<Longrightarrow>
     optimize (build_model couts offres demandes n_sources n_dest) r \<Longrightarrow>
     report n_sources n_dest r ui = (out, ui') \<Longrightarrow>
     solve_transport float ui out ui'"

subsection \<open>Notions of the specification\<close>

text \<open>
  The sums of a shipment matrix \<open>y\<close>, and its cost at the unit costs \<open>couts\<close>.
\<close>

definition row_sum :: "real list list \<Rightarrow> nat \<Rightarrow> real" where
  "row_sum y i = sum_list (y ! i)"

definition col_sum :: "real list list \<Rightarrow> nat \<Rightarrow> real" where
  "col_sum y j = (\<Sum>i\<leftarrow>[0..<length y]. y ! i ! j)"

definition total_cost :: "real list list \<Rightarrow> real list list \<Rightarrow> real" where
  "total_cost couts y = (\<Sum>i\<leftarrow>[0..<length y]. \<Sum>j\<leftarrow>[0..<length (y ! i)]. couts ! i ! j * y ! i ! j)"

text \<open>
  A plan that ships exactly the demanded quantities: a matrix of the instance's shape
  with no negative entry, no source shipping more than its supply, and every destination
  receiving exactly its demand.
\<close>

definition ships_exactly :: "real list \<Rightarrow> real list \<Rightarrow> real list list \<Rightarrow> bool" where
  "ships_exactly offres demandes y =
     (length y = length offres \<and>
      list_all (\<lambda>i. length (y ! i) = length demandes \<and> list_all (\<lambda>v. 0 \<le> v) (y ! i) \<and>
                    row_sum y i \<le> offres ! i) [0..<length offres] \<and>
      list_all (\<lambda>j. col_sum y j = demandes ! j) [0..<length demandes])"

text \<open>\<open>c\<close> is the minimum cost of shipping exactly the demanded quantities.\<close>

definition min_cost_exact :: "real list list \<Rightarrow> real list \<Rightarrow> real list \<Rightarrow> real \<Rightarrow> bool" where
  "min_cost_exact couts offres demandes c =
     ((\<exists>y. ships_exactly offres demandes y \<and> total_cost couts y = c) \<and>
      (\<forall>y. ships_exactly offres demandes y \<longrightarrow> c \<le> total_cost couts y))"

subsection \<open>Windows for the concrete examples\<close>

text \<open>
  A table of \<open>r\<close> rows and \<open>c\<close> columns holding the given texts, row by row; a cell
  without a text has no item. A window as \<open>update_tables\<close> (lines 71-85) sizes it from
  the two spin boxes: the cost and result tables of \<open>n_sources\<close> rows and \<open>n_dest\<close>
  columns, the supply table of \<open>n_sources\<close> rows and one column, the demand table of one
  row and \<open>n_dest\<close> columns; the three input tables hold the texts typed so far, the
  result table is empty and nothing is shown yet.
\<close>

definition table :: "nat \<Rightarrow> nat \<Rightarrow> string list list \<Rightarrow> qtable" where
  "table r c txt =
     \<lparr>rowCount = r, columnCount = c,
      cells = (\<lambda>i j. if i < length txt \<and> j < length (txt ! i) then Some (txt ! i ! j) else None)\<rparr>"

definition window ::
  "nat \<Rightarrow> nat \<Rightarrow> string list list \<Rightarrow> string list \<Rightarrow> string list \<Rightarrow> app" where
  "window n_sources n_dest couts offres demandes =
     \<lparr>cost_table = table n_sources n_dest couts,
      offre_table = table n_sources 1 (map (\<lambda>s. [s]) offres),
      demande_table = table 1 n_dest [demandes],
      result_table = table n_sources n_dest [],
      result_label = []\<rparr>"

section \<open>Facts about reading a table\<close>

lemma read_row_length:
  "read_row float t i js = Inr row \<Longrightarrow> length row = length js"
  by (induction js arbitrary: row) (auto split: sum.splits)


lemma read_rows_length:
  "read_rows float t is cols = Inr data \<Longrightarrow> length data = length is"
  by (induction "is" arbitrary: data) (auto split: sum.splits)

lemma read_rows_nth:
  "read_rows float t is cols = Inr data \<Longrightarrow> k < length is \<Longrightarrow>
     read_row float t (is ! k) [0..<cols] = Inr (data ! k)"
proof (induction "is" arbitrary: data k)
  case Nil
  then show ?case by simp
next
  case (Cons i "is")
  then show ?case by (cases k) (auto split: sum.splits)
qed

lemma read_table_length:
  "read_table float t rows cols = Inr data \<Longrightarrow> length data = rows"
  by (auto simp: read_table_def dest: read_rows_length)

lemma read_table_row_length:
  assumes "read_table float t rows cols = Inr data" and "i < rows"
  shows "length (data ! i) = cols"
proof -
  have "read_row float t i [0..<cols] = Inr (data ! i)"
    using read_rows_nth [of float t "[0..<rows]" cols data i] assms
    by (simp add: read_table_def)
  then show ?thesis by (auto dest: read_row_length)
qed





section \<open>The program posted and its feasible points\<close>

lemma sum_list_upt: "(\<Sum>k\<leftarrow>[0..<n]. f k) = (\<Sum>k<n. f k)"
  by (simp add: interv_sum_list_conv_sum_set_nat atLeast0LessThan)

lemma lin_val_append: "lin_val x (e @ e') = lin_val x e + lin_val x e'"
  by (simp add: lin_val_def)

lemma lin_val_concat: "lin_val x (concat es) = (\<Sum>e\<leftarrow>es. lin_val x e)"
  by (induction es) (simp_all add: lin_val_def)

lemma lin_val_row: "lin_val x [(1, (i, j)). j \<leftarrow> [0..<m]] = (\<Sum>j<m. x (i, j))"
  by (simp add: lin_val_def comp_def sum_list_upt)

lemma lin_val_col: "lin_val x [(1, (i, j)). i \<leftarrow> [0..<n]] = (\<Sum>i<n. x (i, j))"
  by (simp add: lin_val_def comp_def sum_list_upt)

lemma lin_val_objective:
  "lin_val x (objective (build_model couts offres demandes n m)) =
     (\<Sum>i<n. \<Sum>j<m. couts ! i ! j * x (i, j))"
  by (simp add: build_model_def lin_val_concat comp_def sum_list_upt)
     (simp add: lin_val_def comp_def sum_list_upt)

lemma feasible_build_model:
  "feasible (build_model couts offres demandes n m) x \<longleftrightarrow>
     (\<forall>i<n. \<forall>j<m. 0 \<le> x (i, j)) \<and>
     (\<forall>i<n. (\<Sum>j<m. x (i, j)) \<le> offres ! i) \<and>
     (\<forall>j<m. demandes ! j \<le> (\<Sum>i<n. x (i, j)))"
proof -
  have v: "list_all (\<lambda>(v, lb). lb \<le> x v) (vars (build_model couts offres demandes n m)) \<longleftrightarrow>
      (\<forall>i<n. \<forall>j<m. 0 \<le> x (i, j))"
    by (auto simp: build_model_def addVar_def list_all_iff)
  have c: "list_all (satisfies x) (constrs (build_model couts offres demandes n m)) \<longleftrightarrow>
      (\<forall>i<n. (\<Sum>j<m. x (i, j)) \<le> offres ! i) \<and> (\<forall>j<m. demandes ! j \<le> (\<Sum>i<n. x (i, j)))"
    by (simp add: build_model_def list.pred_map comp_def lin_val_row lin_val_col)
       (auto simp: list_all_iff)
  show ?thesis unfolding feasible_def v c by simp
qed

lemma feasible_balanced:
  assumes feas: "feasible (build_model couts offres demandes n m) x"
    and bal: "(\<Sum>i<n. offres ! i) = (\<Sum>j<m. demandes ! j)"
  shows "(\<forall>i<n. (\<Sum>j<m. x (i, j)) = offres ! i) \<and> (\<forall>j<m. (\<Sum>i<n. x (i, j)) = demandes ! j)"
proof -
  define R where "R i = offres ! i - (\<Sum>j<m. x (i, j))" for i
  define C where "C j = (\<Sum>i<n. x (i, j)) - demandes ! j" for j
  have R0: "\<forall>i\<in>{..<n}. 0 \<le> R i" and C0: "\<forall>j\<in>{..<m}. 0 \<le> C j"
    using feas by (simp_all add: feasible_build_model R_def C_def)
  have swap: "(\<Sum>i<n. \<Sum>j<m. x (i, j)) = (\<Sum>j<m. \<Sum>i<n. x (i, j))"
    by (rule sum.swap)
  have "sum R {..<n} + sum C {..<m} = 0"
    by (simp add: R_def C_def sum_subtractf swap bal)
  moreover have "0 \<le> sum R {..<n}" "0 \<le> sum C {..<m}"
    using R0 C0 by (auto intro: sum_nonneg)
  ultimately have R_sum: "sum R {..<n} = 0" and C_sum: "sum C {..<m} = 0"
    by linarith+
  have "\<forall>i\<in>{..<n}. R i = 0"
    using sum_nonneg_eq_0_iff [of "{..<n}" R] R0 R_sum by auto
  moreover have "\<forall>j\<in>{..<m}. C j = 0"
    using sum_nonneg_eq_0_iff [of "{..<m}" C] C0 C_sum by auto
  ultimately show ?thesis by (simp add: R_def C_def)
qed

lemma sum_list_nth_lessThan: "sum_list (xs :: real list) = (\<Sum>i<length xs. xs ! i)"
  by (simp add: sum_list_sum_nth atLeast0LessThan)

lemma row_sum_allocation: "i < n \<Longrightarrow> row_sum (allocation n m x) i = (\<Sum>j<m. x (i, j))"
  by (simp add: row_sum_def allocation_def sum_list_upt)

lemma col_sum_allocation: "j < m \<Longrightarrow> col_sum (allocation n m x) j = (\<Sum>i<n. x (i, j))"
  by (simp add: col_sum_def allocation_def sum_list_upt)

lemma allocation_nth: "i < n \<Longrightarrow> j < m \<Longrightarrow> allocation n m x ! i ! j = x (i, j)"
  by (simp add: allocation_def)

lemma read_instance_shape:
  assumes "read_instance float ui = Inr (couts, offres, demandes)"
  shows "length couts = rowCount (cost_table ui)"
    and "\<forall>i < rowCount (cost_table ui). length (couts ! i) = columnCount (cost_table ui)"
    and "length offres = rowCount (cost_table ui)"
    and "length demandes = columnCount (cost_table ui)"
  using assms
  by (auto simp: read_instance_def Let_def split: sum.splits
           dest: read_table_length read_table_row_length)

lemma map_Finite_real_of: "list_all is_Finite xs \<Longrightarrow> map (Finite \<circ> real_of) xs = xs"
  by (induction xs) simp_all

lemma map_map_Finite_real_of:
  "list_all (list_all is_Finite) xss \<Longrightarrow> map (map (Finite \<circ> real_of)) xss = xss"
  by (induction xss) (simp_all add: map_Finite_real_of)

lemma all_finite_fin_inst [simp]: "all_finite (fin_inst couts offres demandes)"
  by (simp add: all_finite_def list_all_iff)

lemma reals_of_fin_inst [simp]: "reals_of (fin_inst couts offres demandes) = (couts, offres, demandes)"
  by (simp add: reals_of_def comp_def)

lemma all_finite_is_fin_inst:
  assumes "all_finite inst" and "reals_of inst = (couts, offres, demandes)"
  shows "inst = fin_inst couts offres demandes"
  using assms
  by (cases inst)
     (auto simp: all_finite_def reals_of_def map_Finite_real_of map_map_Finite_real_of)

inductive_cases solvedE: "solve_transport float ui (Solved c alloc) ui'"

lemma solved_optimal:
  assumes "solve_transport float ui (Solved c alloc) ui'"
    and "read_instance float ui = Inr (fin_inst couts offres demandes)"
  obtains x where
    "is_optimal (build_model couts offres demandes (length offres) (length demandes)) x"
    "c = lin_val x (objective (build_model couts offres demandes (length offres) (length demandes)))"
    "alloc = allocation (length offres) (length demandes) x"
    "ui' = show_solution (length offres) (length demandes) c x ui"
  using assms read_instance_shape(3,4) [OF assms(2)]
  by (auto elim!: solvedE simp: optimize_def report_def split: if_splits)

lemma solve_transport_SolvedI:
  assumes rd: "read_instance float ui = Inr (fin_inst couts offres demandes)"
    and n: "n = rowCount (cost_table ui)" and m: "m = columnCount (cost_table ui)"
    and opt: "is_optimal (build_model couts offres demandes n m) x"
    and c: "c = lin_val x (objective (build_model couts offres demandes n m))"
    and a: "alloc = allocation n m x"
  shows "solve_transport float ui (Solved c alloc) (show_solution n m c x ui)"
proof -
  let ?r = "\<lparr>status = OPTIMAL, objVal = c, X = x\<rparr>"
  have "optimize (build_model couts offres demandes n m) ?r"
    using opt c by (simp add: optimize_def)
  moreover have "report n m ?r ui = (Solved c alloc, show_solution n m c x ui)"
    by (simp add: report_def a)
  ultimately show ?thesis
    using rd all_finite_fin_inst reals_of_fin_inst n m
    by (rule solve_transport.optimized [rotated 5])
qed

lemma solve_transport_AvertissementI:
  assumes rd: "read_instance float ui = Inr (fin_inst couts offres demandes)"
  shows "solve_transport float ui Avertissement ui"
proof -
  let ?r = "\<lparr>status = INFEASIBLE, objVal = 0, X = (\<lambda>_. 0)\<rparr>"
  have "optimize (build_model couts offres demandes (rowCount (cost_table ui))
          (columnCount (cost_table ui))) ?r"
    by (simp add: optimize_def)
  moreover have "report (rowCount (cost_table ui)) (columnCount (cost_table ui)) ?r ui
      = (Avertissement, ui)"
    by (simp add: report_def)
  ultimately show ?thesis
    using rd all_finite_fin_inst reals_of_fin_inst refl refl
    by (rule solve_transport.optimized [rotated 5])
qed

lemma solved_nonneg:
  assumes "solve_transport float ui (Solved c alloc) ui'"
  shows "list_all (list_all (\<lambda>v. 0 \<le> v)) alloc"
  using assms
  by (auto elim!: solvedE simp: optimize_def report_def is_optimal_def feasible_build_model
        allocation_def list_all_iff split: if_splits)

lemma solvedD:
  assumes "solve_transport float ui (Solved c alloc) ui'"
  obtains couts offres demandes x where
    "read_instance float ui = Inr (fin_inst couts offres demandes)"
    "is_optimal (build_model couts offres demandes (length offres) (length demandes)) x"
    "c = lin_val x (objective (build_model couts offres demandes (length offres) (length demandes)))"
    "alloc = allocation (length offres) (length demandes) x"
    "ui' = show_solution (length offres) (length demandes) c x ui"
proof -
  from assms obtain inst couts offres demandes where
    "read_instance float ui = Inr inst" "all_finite inst"
    "reals_of inst = (couts, offres, demandes)"
    by (auto elim!: solvedE)
  then have rd: "read_instance float ui = Inr (fin_inst couts offres demandes)"
    using all_finite_is_fin_inst by blast
  from assms rd show thesis
    by (rule solved_optimal) (rule that [OF rd])
qed

lemma is_optimal_value_unique:
  "is_optimal m x \<Longrightarrow> is_optimal m y \<Longrightarrow> lin_val x (objective m) = lin_val y (objective m)"
  by (auto simp: is_optimal_def intro: antisym)



lemma solve_transport_not_finite:
  assumes "read_instance float ui = Inr inst" and "\<not> all_finite inst"
    and "solve_transport float ui out ui'"
  shows "out = Erreur GurobiError \<and> ui' = ui"
  using assms(3,1,2) by (cases rule: solve_transport.cases) auto

lemma solve_transport_failure:
  assumes "solve_transport float ui out ui'"
  shows "case out of
           Solved c alloc \<Rightarrow> True
         | Avertissement \<Rightarrow> ui' = ui \<and> (\<exists>inst. read_instance float ui = Inr inst \<and> all_finite inst)
         | Erreur e \<Rightarrow>
             ui' = ui \<and>
             (read_instance float ui = Inl e \<or>
              (e = GurobiError \<and> (\<exists>inst. read_instance float ui = Inr inst)))"
  using assms
  by (cases rule: solve_transport.cases) (auto simp: report_def split: if_splits)

section \<open>Shipping exactly the demand\<close>

lemma exact_plan_below:
  assumes feas: "feasible (build_model couts offres demandes n m) x"
    and c0: "\<forall>i<n. \<forall>j<m. 0 \<le> couts ! i ! j"
    and d0: "\<forall>j<m. 0 \<le> demandes ! j"
  obtains y where
    "\<forall>i<n. \<forall>j<m. 0 \<le> y (i, j)"
    "\<forall>i<n. (\<Sum>j<m. y (i, j)) \<le> offres ! i"
    "\<forall>j<m. (\<Sum>i<n. y (i, j)) = demandes ! j"
    "(\<Sum>i<n. \<Sum>j<m. couts ! i ! j * y (i, j)) \<le> (\<Sum>i<n. \<Sum>j<m. couts ! i ! j * x (i, j))"
proof -
  define col where "col j = (\<Sum>i<n. x (i, j))" for j
  define s where "s j = (if col j = 0 then 0 else demandes ! j / col j)" for j
  define y where "y = (\<lambda>(i, j). x (i, j) * s j)"
  from feas have x0: "\<And>i j. i < n \<Longrightarrow> j < m \<Longrightarrow> 0 \<le> x (i, j)"
    and rows: "\<And>i. i < n \<Longrightarrow> (\<Sum>j<m. x (i, j)) \<le> offres ! i"
    and cols: "\<And>j. j < m \<Longrightarrow> demandes ! j \<le> col j"
    by (simp_all add: feasible_build_model col_def)
  have s01: "0 \<le> s j \<and> s j \<le> 1" if "j < m" for j
  proof (cases "col j = 0")
    case True
    then show ?thesis by (simp add: s_def)
  next
    case False
    moreover have "0 \<le> col j" using cols [OF that] d0 that by force
    ultimately have "0 < col j" by simp
    with cols [OF that] d0 that show ?thesis by (simp add: s_def)
  qed
  have y0: "0 \<le> y (i, j)" if "i < n" "j < m" for i j
    using x0 [OF that] s01 [OF that(2)] by (simp add: y_def)
  have yx: "y (i, j) \<le> x (i, j)" if "i < n" "j < m" for i j
    using mult_left_mono [of "s j" 1 "x (i, j)"] x0 [OF that] s01 [OF that(2)]
    by (simp add: y_def)
  have yrows: "(\<Sum>j<m. y (i, j)) \<le> offres ! i" if "i < n" for i
  proof -
    have "(\<Sum>j<m. y (i, j)) \<le> (\<Sum>j<m. x (i, j))"
      by (rule sum_mono) (simp add: yx that)
    with rows [OF that] show ?thesis by simp
  qed
  have ycols: "(\<Sum>i<n. y (i, j)) = demandes ! j" if "j < m" for j
  proof -
    have "(\<Sum>i<n. y (i, j)) = col j * s j"
      by (simp add: y_def col_def sum_distrib_right)
    also have "\<dots> = demandes ! j"
    proof (cases "col j = 0")
      case True
      with cols [OF that] d0 that have "demandes ! j = 0" by force
      with True show ?thesis by simp
    next
      case False
      then show ?thesis by (simp add: s_def)
    qed
    finally show ?thesis .
  qed
  have ycost: "(\<Sum>i<n. \<Sum>j<m. couts ! i ! j * y (i, j)) \<le> (\<Sum>i<n. \<Sum>j<m. couts ! i ! j * x (i, j))"
    by (intro sum_mono mult_left_mono) (simp_all add: yx c0)
  show thesis
    using y0 yrows ycols ycost by (intro that) auto
qed

lemma total_cost_allocation:
  "total_cost couts (allocation n m y) = (\<Sum>i<n. \<Sum>j<m. couts ! i ! j * y (i, j))"
proof -
  have "total_cost couts (allocation n m y)
      = (\<Sum>i<n. \<Sum>j<length (allocation n m y ! i). couts ! i ! j * allocation n m y ! i ! j)"
    by (simp add: total_cost_def sum_list_upt allocation_def)
  also have "\<dots> = (\<Sum>i<n. \<Sum>j<m. couts ! i ! j * y (i, j))"
    by (intro sum.cong refl) (simp_all add: allocation_def)
  finally show ?thesis .
qed

lemma ships_exactly_allocation:
  assumes "\<forall>i<length offres. \<forall>j<length demandes. 0 \<le> y (i, j)"
    and "\<forall>i<length offres. (\<Sum>j<length demandes. y (i, j)) \<le> offres ! i"
    and "\<forall>j<length demandes. (\<Sum>i<length offres. y (i, j)) = demandes ! j"
  shows "ships_exactly offres demandes (allocation (length offres) (length demandes) y)"
proof -
  have "length (allocation (length offres) (length demandes) y) = length offres"
    by (simp add: allocation_def)
  moreover have "list_all (\<lambda>i. length (allocation (length offres) (length demandes) y ! i) = length demandes \<and>
        list_all (\<lambda>v. 0 \<le> v) (allocation (length offres) (length demandes) y ! i) \<and>
        row_sum (allocation (length offres) (length demandes) y) i \<le> offres ! i) [0..<length offres]"
    using assms(1,2) by (simp add: list_all_iff row_sum_allocation) (simp add: allocation_def)
  moreover have "list_all (\<lambda>j. col_sum (allocation (length offres) (length demandes) y) j = demandes ! j)
        [0..<length demandes]"
    using assms(3) by (simp add: list_all_iff col_sum_allocation)
  ultimately show ?thesis by (simp only: ships_exactly_def) 
qed

lemma ships_exactly_feasible:
  assumes "ships_exactly offres demandes z"
  shows "feasible (build_model couts offres demandes (length offres) (length demandes))
           (\<lambda>(i, j). z ! i ! j)"
    and "lin_val (\<lambda>(i, j). z ! i ! j)
           (objective (build_model couts offres demandes (length offres) (length demandes)))
         = total_cost couts z"
proof -
  from assms have len: "length z = length offres"
    and row: "\<And>i. i < length offres \<Longrightarrow> length (z ! i) = length demandes"
    and pos: "\<And>i. i < length offres \<Longrightarrow> list_all (\<lambda>v. 0 \<le> v) (z ! i)"
    and rs: "\<And>i. i < length offres \<Longrightarrow> row_sum z i \<le> offres ! i"
    and cs: "\<And>j. j < length demandes \<Longrightarrow> col_sum z j = demandes ! j"
    by (simp_all add: ships_exactly_def list_all_iff)
  have entry: "0 \<le> z ! i ! j" if "i < length offres" "j < length demandes" for i j
    using pos [OF that(1)] row [OF that(1)] that(2) by (simp add: list_all_length)
  have rsum: "(\<Sum>j<length demandes. z ! i ! j) = row_sum z i" if "i < length offres" for i
    using row [OF that] by (simp add: row_sum_def sum_list_nth_lessThan)
  have csum: "(\<Sum>i<length offres. z ! i ! j) = col_sum z j" for j
    by (simp add: col_sum_def len sum_list_upt)
  show "feasible (build_model couts offres demandes (length offres) (length demandes))
           (\<lambda>(i, j). z ! i ! j)"
    by (simp add: feasible_build_model entry rsum rs csum cs)
  have "total_cost couts z = (\<Sum>i<length offres. \<Sum>j<length (z ! i). couts ! i ! j * z ! i ! j)"
    by (simp add: total_cost_def sum_list_upt len)
  also have "\<dots> = (\<Sum>i<length offres. \<Sum>j<length demandes. couts ! i ! j * z ! i ! j)"
    by (intro sum.cong refl) (simp add: row)
  finally show "lin_val (\<lambda>(i, j). z ! i ! j)
           (objective (build_model couts offres demandes (length offres) (length demandes)))
         = total_cost couts z"
    by (simp add: lin_val_objective)
qed

lemma optimal_is_min_cost_exact:
  assumes opt: "is_optimal (build_model couts offres demandes (length offres) (length demandes)) x"
    and c0: "\<forall>i<length offres. \<forall>j<length demandes. 0 \<le> couts ! i ! j"
    and d0: "\<forall>j<length demandes. 0 \<le> demandes ! j"
  shows "min_cost_exact couts offres demandes
           (lin_val x (objective (build_model couts offres demandes (length offres) (length demandes))))"
proof -
  let ?M = "build_model couts offres demandes (length offres) (length demandes)"
  from opt have feas: "feasible ?M x"
    and best: "\<And>z. feasible ?M z \<Longrightarrow> lin_val x (objective ?M) \<le> lin_val z (objective ?M)"
    by (simp_all add: is_optimal_def)
  from feas c0 d0 obtain y where
    y: "\<forall>i<length offres. \<forall>j<length demandes. 0 \<le> y (i, j)"
      "\<forall>i<length offres. (\<Sum>j<length demandes. y (i, j)) \<le> offres ! i"
      "\<forall>j<length demandes. (\<Sum>i<length offres. y (i, j)) = demandes ! j"
    and le: "(\<Sum>i<length offres. \<Sum>j<length demandes. couts ! i ! j * y (i, j))
        \<le> (\<Sum>i<length offres. \<Sum>j<length demandes. couts ! i ! j * x (i, j))"
    by (rule exact_plan_below)
  have "feasible ?M y"
    using y by (simp add: feasible_build_model)
  from best [OF this] le have eq: "lin_val y (objective ?M) = lin_val x (objective ?M)"
    by (simp add: lin_val_objective)
  have "ships_exactly offres demandes (allocation (length offres) (length demandes) y)"
    using y by (rule ships_exactly_allocation)
  moreover have "total_cost couts (allocation (length offres) (length demandes) y)
      = lin_val x (objective ?M)"
    using eq by (simp add: total_cost_allocation lin_val_objective)
  moreover have "lin_val x (objective ?M) \<le> total_cost couts z"
    if "ships_exactly offres demandes z" for z
    using best [OF ships_exactly_feasible(1) [OF that]] ships_exactly_feasible(2) [OF that, of couts]
    by simp
  ultimately show ?thesis
    unfolding min_cost_exact_def by blast
qed

section \<open>What a call reads and writes\<close>

lemma setItem_dims [simp]:
  "rowCount (setItem t i j s) = rowCount t" "columnCount (setItem t i j s) = columnCount t"
  by (simp_all add: setItem_def Let_def)

lemma cell_position:
  fixes a b cc k :: nat
  assumes "b < cc"
  shows "(a = k div cc \<and> b = k mod cc) \<longleftrightarrow> k = a * cc + b"
proof
  assume "a = k div cc \<and> b = k mod cc"
  then show "k = a * cc + b" by simp
next
  assume "k = a * cc + b"
  with assms show "a = k div cc \<and> b = k mod cc" by simp
qed

lemma cell_inside:
  fixes a b rc cc :: nat
  assumes "a < rc" "b < cc"
  shows "a * cc + b < rc * cc"
proof -
  have "a * cc + b < Suc a * cc" using assms(2) by simp
  also have "\<dots> \<le> rc * cc" using assms(1) by (intro mult_le_mono1) simp
  finally show ?thesis .
qed

lemma item_setItem:
  "item (setItem t i j s) a b =
     (if a < rowCount t \<and> b < columnCount t \<and>
         i * columnCount t + j = a * columnCount t + b
      then Some s else item t a b)"
proof (cases "a < rowCount t \<and> b < columnCount t")
  case False
  then show ?thesis by (auto simp: item_def)
next
  case True
  then have a: "a < rowCount t" and b: "b < columnCount t" by simp_all
  show ?thesis
  proof (cases "i * columnCount t + j < rowCount t * columnCount t")
    case True
    then show ?thesis
      using a b cell_position [OF b, of a "i * columnCount t + j"]
      by (auto simp: setItem_def item_def Let_def)
  next
    case False
    with cell_inside [OF a b] have "i * columnCount t + j \<noteq> a * columnCount t + b"
      by auto
    with False show ?thesis
      by (simp add: setItem_def Let_def)
  qed
qed

lemma fold_row_dims [simp]:
  "rowCount (fold (\<lambda>j t. setItem t i j (f j)) js t) = rowCount t"
  "columnCount (fold (\<lambda>j t. setItem t i j (f j)) js t) = columnCount t"
  by (induction js arbitrary: t) simp_all

lemma item_fold_row:
  "item (fold (\<lambda>j t. setItem t i j (f j)) js t) a b =
     (if a < rowCount t \<and> b < columnCount t \<and> i * columnCount t \<le> a * columnCount t + b \<and>
         a * columnCount t + b - i * columnCount t \<in> set js
      then Some (f (a * columnCount t + b - i * columnCount t))
      else item t a b)"
proof (induction js arbitrary: t)
  case Nil
  then show ?case by simp
next
  case (Cons j js)
  show ?case
    by (simp add: Cons.IH item_setItem) auto
qed

lemma fold_rows_dims [simp]:
  "rowCount (fold (\<lambda>i t. fold (\<lambda>j t. setItem t i j (f i j)) js t) is t) = rowCount t"
  "columnCount (fold (\<lambda>i t. fold (\<lambda>j t. setItem t i j (f i j)) js t) is t) = columnCount t"
  by (induction "is" arbitrary: t) simp_all

text \<open>
  The rows are written in order, so a cell inside the table ends with its own value: a
  write that strays into it from an earlier row is overwritten, and a later row writes
  behind it.
\<close>

lemma item_fold_rows:
  assumes "a < n" "b < m" "a < rowCount t" "b < columnCount t"
  shows "item (fold (\<lambda>i t. fold (\<lambda>j t. setItem t i j (f i j)) [0..<m] t) [0..<n] t) a b
           = Some (f a b)"
  using assms(1)
proof (induction n)
  case 0
  then show ?case by simp
next
  case (Suc n)
  let ?T = "fold (\<lambda>i t. fold (\<lambda>j t. setItem t i j (f i j)) [0..<m] t) [0..<n] t"
  have step: "fold (\<lambda>i t. fold (\<lambda>j t. setItem t i j (f i j)) [0..<m] t) [0..<Suc n] t
      = fold (\<lambda>j t. setItem t n j (f n j)) [0..<m] ?T"
    by simp
  show ?case
  proof (cases "a = n")
    case True
    then show ?thesis
      unfolding step using assms(2,3,4) by (simp add: item_fold_row)
  next
    case False
    with Suc.prems have an: "a < n" by simp
    have "a * columnCount t + b < Suc a * columnCount t"
      using assms(4) by simp
    also have "\<dots> \<le> n * columnCount t"
      using an by (intro mult_le_mono1) simp
    finally have "\<not> n * columnCount t \<le> a * columnCount t + b" by simp
    then show ?thesis
      unfolding step using Suc.IH [OF an] by (simp add: item_fold_row)
  qed
qed

lemma show_solution_inputs [simp]:
  "cost_table (show_solution n m c x ui) = cost_table ui"
  "offre_table (show_solution n m c x ui) = offre_table ui"
  "demande_table (show_solution n m c x ui) = demande_table ui"
  "result_label (show_solution n m c x ui) = fmt2 c"
  by (simp_all add: show_solution_def)

lemma show_solution_item:
  assumes "i < n" "j < m" "i < rowCount (result_table ui)" "j < columnCount (result_table ui)"
  shows "item (result_table (show_solution n m c x ui)) i j = Some (fmt2 (x (i, j)))"
  using item_fold_rows [OF assms, of "\<lambda>i j. fmt2 (x (i, j))"]
  by (simp add: show_solution_def)

lemma read_instance_cong:
  assumes "cost_table vi = cost_table ui" "offre_table vi = offre_table ui"
    "demande_table vi = demande_table ui"
  shows "read_instance float vi = read_instance float ui"
  unfolding read_instance_def assms by (rule refl)

lemma report_outcome_frame: "fst (report n m r vi) = fst (report n m r ui)"
  by (simp add: report_def)

lemma solve_transport_same_inputs:
  assumes run: "solve_transport float ui out ui'"
    and same: "cost_table vi = cost_table ui" "offre_table vi = offre_table ui"
      "demande_table vi = demande_table ui"
  shows "\<exists>vi'. solve_transport float vi out vi'"
  using run
proof (cases rule: solve_transport.cases)
  case (raised e)
  then have "read_instance float vi = Inl e"
    using read_instance_cong [OF same, of float] by simp
  then have "solve_transport float vi (Erreur e) vi" by (rule solve_transport.raised)
  with raised show ?thesis by blast
next
  case (library_raised inst)
  then have "read_instance float vi = Inr inst"
    using read_instance_cong [OF same, of float] by simp
  then have "solve_transport float vi (Erreur GurobiError) vi"
    by (rule solve_transport.library_raised)
  with library_raised show ?thesis by blast
next
  case (optimized inst couts offres demandes n_sources n_dest r)
  have rd: "read_instance float vi = Inr inst"
    using read_instance_cong [OF same, of float] optimized(1) by simp
  have n: "n_sources = rowCount (cost_table vi)" and m: "n_dest = columnCount (cost_table vi)"
    using optimized(4,5) same(1) by simp_all
  have "fst (report n_sources n_dest r vi) = out"
    using report_outcome_frame [of n_sources n_dest r vi ui] optimized(7) by simp
  then have rep: "report n_sources n_dest r vi = (out, snd (report n_sources n_dest r vi))"
    by (simp add: prod_eq_iff)
  have "solve_transport float vi out (snd (report n_sources n_dest r vi))"
    using rd optimized(2,3) n m optimized(6) rep by (rule solve_transport.optimized)
  then show ?thesis ..
qed

lemma solve_transport_inputs_kept:
  assumes "solve_transport float ui out ui'"
  shows "cost_table ui' = cost_table ui \<and> offre_table ui' = offre_table ui \<and>
         demande_table ui' = demande_table ui"
  using assms
  by (cases rule: solve_transport.cases) (auto simp: report_def split: if_splits)

lemma solved_shown:
  assumes "solve_transport float ui (Solved c alloc) ui'"
  shows "result_label ui' = fmt2 c"
    and "\<forall>i<length alloc. \<forall>j<length (alloc ! i).
           i < rowCount (result_table ui) \<and> j < columnCount (result_table ui) \<longrightarrow>
           item (result_table ui') i j = Some (fmt2 (alloc ! i ! j))"
proof -
  from assms obtain couts offres demandes x where
    "read_instance float ui = Inr (fin_inst couts offres demandes)"
    "is_optimal (build_model couts offres demandes (length offres) (length demandes)) x"
    "c = lin_val x (objective (build_model couts offres demandes (length offres) (length demandes)))"
    and alloc: "alloc = allocation (length offres) (length demandes) x"
    and ui': "ui' = show_solution (length offres) (length demandes) c x ui"
    by (rule solvedD)
  show "result_label ui' = fmt2 c" by (simp add: ui')
  show "\<forall>i<length alloc. \<forall>j<length (alloc ! i).
           i < rowCount (result_table ui) \<and> j < columnCount (result_table ui) \<longrightarrow>
           item (result_table ui') i j = Some (fmt2 (alloc ! i ! j))"
    by (simp add: ui' alloc show_solution_item allocation_def)
qed

section \<open>Concrete runs\<close>

lemma upt_02: "[0..<2] = [0, 1]"
  by (simp add: upt_rec)

lemma upt_03: "[0..<3] = [0, 1, 2]"
  by (simp add: upt_rec)

lemmas read_eval =
  read_instance_def read_table_def read_cell_def item_def window_def table_def
  unsigned_float_def unsigned_dec_def digit_val_def Let_def upt_02 upt_03

lemmas lp_eval =
  is_optimal_def feasible_build_model lin_val_objective lessThan_Suc numeral_2_eq_2
  numeral_3_eq_3 All_less_Suc

lemma fmt2_examples:
  "fmt2 10 = ''10.00''" "fmt2 5 = ''5.00''" "fmt2 0 = ''0.00''" "fmt2 (-10) = ''-10.00''"
  by (simp_all add: fmt2_def round_half_even_def)

lemma qtable_eqI:
  assumes "rowCount s = rowCount t" "columnCount s = columnCount t"
    "\<And>i j. cells s i j = cells t i j" "qtable.more s = qtable.more t"
  shows "s = t"
  using assms by (cases s, cases t) (auto simp: fun_eq_iff)

text \<open>The 2 by 2 scenario of the specification: supplies 20 and 30, demands 25 and 25.\<close>

lemma read_scenario:
  "read_instance float_dec (window 2 2 [[''8'', ''6''], [''4'', ''9'']] [''20'', ''30''] [''25'', ''25''])
     = Inr (fin_inst [[8, 6], [4, 9]] [20, 30] [25, 25])"
  by (simp add: read_eval)

lemma optimal_scenario:
  "is_optimal (build_model [[8, 6], [4, 9]] [20, 30] [25, 25] 2 2)
     (\<lambda>(i, j). [[0, 20], [25, 5]] ! i ! j)"
  by (simp add: lp_eval)

lemma solved_scenario:
  "\<exists>ui'. solve_transport float_dec
     (window 2 2 [[''8'', ''6''], [''4'', ''9'']] [''20'', ''30''] [''25'', ''25''])
     (Solved 265 [[0, 20], [25, 5]]) ui'"
  by (rule exI, rule solve_transport_SolvedI [OF read_scenario _ _ optimal_scenario])
     (simp_all add: window_def table_def lin_val_objective allocation_def upt_02
        lessThan_Suc numeral_2_eq_2)

text \<open>The tie: two sources at the same cost, one destination.\<close>

lemma read_tie:
  "read_instance float_dec (window 2 1 [[''1''], [''1'']] [''5'', ''5''] [''5''])
     = Inr (fin_inst [[1], [1]] [5, 5] [5])"
  by (simp add: read_eval)

lemma optimal_tie_first:
  "is_optimal (build_model [[1], [1]] [5, 5] [5] 2 1) (\<lambda>(i, j). [[5], [0]] ! i ! j)"
  by (simp add: lp_eval)

lemma optimal_tie_second:
  "is_optimal (build_model [[1], [1]] [5, 5] [5] 2 1) (\<lambda>(i, j). [[0], [5]] ! i ! j)"
  by (simp add: lp_eval)

lemma solved_tie_first:
  "\<exists>ui'. solve_transport float_dec (window 2 1 [[''1''], [''1'']] [''5'', ''5''] [''5''])
     (Solved 5 [[5], [0]]) ui'"
  by (rule exI, rule solve_transport_SolvedI [OF read_tie _ _ optimal_tie_first])
     (simp_all add: window_def table_def lin_val_objective allocation_def upt_02
        lessThan_Suc numeral_2_eq_2)

lemma solved_tie_second:
  "\<exists>ui'. solve_transport float_dec (window 2 1 [[''1''], [''1'']] [''5'', ''5''] [''5''])
     (Solved 5 [[0], [5]]) ui'"
  by (rule exI, rule solve_transport_SolvedI [OF read_tie _ _ optimal_tie_second])
     (simp_all add: window_def table_def lin_val_objective allocation_def upt_02
        lessThan_Suc numeral_2_eq_2)

text \<open>A negative cost: one source with supply 10, one destination with demand 5, cost -1.\<close>

lemma read_negative:
  "read_instance float_dec (window 1 1 [[''-1'']] [''10''] [''5'']) = Inr (fin_inst [[-1]] [10] [5])"
  by (simp add: read_eval)

lemma optimal_negative:
  "is_optimal (build_model [[-1]] [10] [5] 1 1) (\<lambda>(i, j). [[10]] ! i ! j)"
  by (simp add: lp_eval)

lemma optimal_negative_only:
  assumes "is_optimal (build_model [[-1]] [10] [5] (Suc 0) (Suc 0)) x"
  shows "x (0, 0) = 10"
proof -
  from assms have le: "x (0, 0) \<le> 10"
    and best: "\<forall>y. 0 \<le> y (0, 0) \<and> y (0, 0) \<le> 10 \<and> 5 \<le> y (0, 0) \<longrightarrow> y (0, 0) \<le> x (0, 0)"
    by (auto simp: lp_eval)
  from best [rule_format, of "\<lambda>_. 10"] have "10 \<le> x (0, 0)" by simp
  with le show ?thesis by simp
qed

lemma solved_negative:
  "solve_transport float_dec (window 1 1 [[''-1'']] [''10''] [''5'']) (Solved (-10) [[10]])
     (show_solution 1 1 (-10) (\<lambda>(i, j). [[10]] ! i ! j) (window 1 1 [[''-1'']] [''10''] [''5'']))"
  by (rule solve_transport_SolvedI [OF read_negative])
     (simp_all add: optimal_negative [simplified] window_def table_def lin_val_objective allocation_def)

lemma shown_negative:
  "show_solution 1 1 (-10) (\<lambda>(i, j). [[10]] ! i ! j) (window 1 1 [[''-1'']] [''10''] [''5''])
   = (window 1 1 [[''-1'']] [''10''] [''5''])
       \<lparr>result_label := ''-10.00'', result_table := table 1 1 [[''10.00'']]\<rparr>"
proof -
  have "fold (\<lambda>i t. fold (\<lambda>j t. setItem t i j (fmt2 ((\<lambda>(i, j). [[10]] ! i ! j) (i, j))))
              [0..<1] t) [0..<1] (table 1 1 [])
          = table 1 1 [[''10.00'']]"
    by (rule qtable_eqI)
       (simp_all add: upt_03 setItem_def Let_def table_def fmt2_examples less_Suc_eq
          numeral_3_eq_3)
  then show ?thesis
    by (simp add: show_solution_def window_def fmt2_examples)
qed

lemma solved_negative_only:
  assumes "solve_transport float_dec (window 1 1 [[''-1'']] [''10''] [''5'']) (Solved c alloc) ui'"
  shows "c = -10 \<and> alloc = [[10]]"
proof -
  from assms read_negative obtain x where
    "is_optimal (build_model [[-1]] [10] [5] (length [10::real]) (length [5::real])) x"
    "c = lin_val x (objective (build_model [[-1]] [10] [5] (length [10::real]) (length [5::real])))"
    "alloc = allocation (length [10::real]) (length [5::real]) x"
    by (rule solved_optimal)
  then show ?thesis
    by (simp add: lin_val_objective allocation_def) (auto dest: optimal_negative_only)
qed









text \<open>Demand above the supply, and a text that is not a number.\<close>

lemma read_infeasible:
  "read_instance float_dec (window 1 1 [[''1'']] [''5''] [''10'']) = Inr (fin_inst [[1]] [5] [10])"
  by (simp add: read_eval)

lemma infeasible_no_point: "\<not> feasible (build_model [[1]] [5] [10] 1 1) x"
  by (simp add: lp_eval)

lemma read_bad_text:
  "read_instance float_dec (window 1 1 [[''abc'']] [''5''] [''5'']) = Inl (ValueError ''abc'')"
  by (simp add: read_eval)



text \<open>A cost read as \<open>inf\<close>.\<close>

lemma read_inf_cost:
  "read_instance float_dec (window 1 1 [[''inf'']] [''5''] [''5''])
     = Inr ([[PosInf]], [Finite 5], [Finite 5])"
  by (simp add: read_eval)

lemma solved_inf_cost:
  "solve_transport float_dec (window 1 1 [[''inf'']] [''5''] [''5'']) (Erreur GurobiError)
     (window 1 1 [[''inf'']] [''5''] [''5''])"
  using read_inf_cost by (rule solve_transport.library_raised)

text \<open>Two calls in a row: a first one that succeeds, a second one after the demand is edited.\<close>

lemma read_first:
  "read_instance float_dec (window 1 1 [[''1'']] [''5''] [''5'']) = Inr (fin_inst [[1]] [5] [5])"
  by (simp add: read_eval)

lemma optimal_first:
  "is_optimal (build_model [[1]] [5] [5] 1 1) (\<lambda>(i, j). [[5]] ! i ! j)"
  by (simp add: lp_eval)

lemma solved_first:
  "solve_transport float_dec (window 1 1 [[''1'']] [''5''] [''5'']) (Solved 5 [[5]])
     (show_solution 1 1 5 (\<lambda>(i, j). [[5]] ! i ! j) (window 1 1 [[''1'']] [''5''] [''5'']))"
  by (rule solve_transport_SolvedI [OF read_first _ _ optimal_first])
     (simp_all add: window_def table_def lin_val_objective allocation_def)

lemma shown_first:
  "show_solution 1 1 5 (\<lambda>(i, j). [[5]] ! i ! j) (window 1 1 [[''1'']] [''5''] [''5''])
   = (window 1 1 [[''1'']] [''5''] [''5''])
       \<lparr>result_label := ''5.00'', result_table := table 1 1 [[''5.00'']]\<rparr>"
proof -
  have "fold (\<lambda>i t. fold (\<lambda>j t. setItem t i j (fmt2 ((\<lambda>(i, j). [[5]] ! i ! j) (i, j))))
              [0..<1] t) [0..<1] (table 1 1 [])
          = table 1 1 [[''5.00'']]"
    by (rule qtable_eqI)
       (simp_all add: upt_03 setItem_def Let_def table_def fmt2_examples less_Suc_eq
          numeral_3_eq_3)
  then show ?thesis
    by (simp add: show_solution_def window_def fmt2_examples)
qed

lemma read_second_after:
  "read_instance float_dec
     ((window 1 1 [[''1'']] [''5''] [''5''])
        \<lparr>result_label := ''5.00'', result_table := table 1 1 [[''5.00'']],
         demande_table := table 1 1 [[''10'']]\<rparr>) = Inr (fin_inst [[1]] [5] [10])"
  by (simp add: read_eval)

lemma read_second_fresh:
  "read_instance float_dec
     ((window 1 1 [[''1'']] [''5''] [''5''])\<lparr>demande_table := table 1 1 [[''10'']]\<rparr>)
     = Inr (fin_inst [[1]] [5] [10])"
  by (simp add: read_eval)

lemma labels_second:
  "result_label ((window 1 1 [[''1'']] [''5''] [''5''])
        \<lparr>result_label := ''5.00'', result_table := table 1 1 [[''5.00'']],
         demande_table := table 1 1 [[''10'']]\<rparr>) = ''5.00''"
  "result_label ((window 1 1 [[''1'']] [''5''] [''5''])\<lparr>demande_table := table 1 1 [[''10'']]\<rparr>) = []"
  by (simp_all add: window_def)

text \<open>More supply than demand; and the exact plans of the negative cost.\<close>

lemma read_surplus:
  "read_instance float_dec (window 2 1 [[''2''], [''3'']] [''6'', ''6''] [''8''])
     = Inr (fin_inst [[2], [3]] [6, 6] [8])"
  by (simp add: read_eval)

lemma optimal_surplus:
  "is_optimal (build_model [[2], [3]] [6, 6] [8] 2 1) (\<lambda>(i, j). [[6], [2]] ! i ! j)"
  by (simp add: lp_eval)

lemma solved_surplus:
  "solve_transport float_dec (window 2 1 [[''2''], [''3'']] [''6'', ''6''] [''8''])
     (Solved 18 [[6], [2]])
     (show_solution 2 1 18 (\<lambda>(i, j). [[6], [2]] ! i ! j)
        (window 2 1 [[''2''], [''3'']] [''6'', ''6''] [''8'']))"
  by (rule solve_transport_SolvedI [OF read_surplus _ _ optimal_surplus])
     (simp_all add: window_def table_def lin_val_objective allocation_def upt_02
        lessThan_Suc numeral_2_eq_2)

lemma exact_negative:
  assumes "ships_exactly [10] [5] y"
  shows "total_cost [[-1]] y = -5"
proof -
  from assms have len: "length y = Suc 0" and row: "length (y ! 0) = Suc 0"
    and col: "col_sum y 0 = 5"
    by (simp_all add: ships_exactly_def)
  from col have "y ! 0 ! 0 = 5"
    by (simp add: col_sum_def len)
  then show ?thesis
    by (simp add: total_cost_def len row)
qed

lemma exact_negative_plan: "ships_exactly [10] [5] [[5]]"
  by (simp add: ships_exactly_def col_sum_def row_sum_def)

lemma min_cost_exact_negative: "min_cost_exact [[-1]] [10] [5] (-5)"
  unfolding min_cost_exact_def
  using exact_negative exact_negative_plan by fastforce

lemma not_min_cost_exact_negative: "\<not> min_cost_exact [[-1]] [10] [5] (-10)"
proof
  assume "min_cost_exact [[-1]] [10] [5] (-10)"
  then obtain y where "ships_exactly [10] [5] y" "total_cost [[-1]] y = -10"
    unfolding min_cost_exact_def by blast
  with exact_negative [of y] show False by simp
qed

section \<open>The claims\<close>

text \<open>
  C1. On a balanced instance (total supply equal to total demand) on which the call
  succeeds, the allocation returned satisfies the conservation equations: every row sums
  to the supply of its source and every column to the demand of its destination, although
  the program posted only bounds the row sums from above and the column sums from below.
\<close>

theorem balanced_flow_conservation:
  assumes "solve_transport float ui (Solved c alloc) ui'"
    and "read_instance float ui = Inr (fin_inst couts offres demandes)"
    and "sum_list offres = sum_list demandes"
  shows "(\<forall>i<length offres. row_sum alloc i = offres ! i) \<and>
         (\<forall>j<length demandes. col_sum alloc j = demandes ! j)"
proof -
  from assms(1,2) obtain x where
    opt: "is_optimal (build_model couts offres demandes (length offres) (length demandes)) x"
    and alloc: "alloc = allocation (length offres) (length demandes) x"
    by (rule solved_optimal)
  have feas: "feasible (build_model couts offres demandes (length offres) (length demandes)) x"
    using opt by (simp add: is_optimal_def)
  have bal: "(\<Sum>i<length offres. offres ! i) = (\<Sum>j<length demandes. demandes ! j)"
    using assms(3) by (simp add: sum_list_nth_lessThan)
  from feasible_balanced [OF feas bal] have
    "(\<forall>i<length offres. (\<Sum>j<length demandes. x (i, j)) = offres ! i) \<and>
     (\<forall>j<length demandes. (\<Sum>i<length offres. x (i, j)) = demandes ! j)" .
  then show ?thesis
    by (simp add: alloc row_sum_allocation col_sum_allocation)
qed

theorem balanced_flow_conservation_witness:
  "read_instance float_dec (window 2 2 [[''8'', ''6''], [''4'', ''9'']] [''20'', ''30''] [''25'', ''25''])
     = Inr (fin_inst [[8, 6], [4, 9]] [20, 30] [25, 25]) \<and>
   sum_list [20, 30 :: real] = sum_list [25, 25] \<and>
   (\<exists>ui'. solve_transport float_dec
      (window 2 2 [[''8'', ''6''], [''4'', ''9'']] [''20'', ''30''] [''25'', ''25''])
      (Solved 265 [[0, 20], [25, 5]]) ui') \<and>
   row_sum [[0, 20], [25, 5]] 0 = 20 \<and> row_sum [[0, 20], [25, 5]] 1 = 30 \<and>
   col_sum [[0, 20], [25, 5]] 0 = 25 \<and> col_sum [[0, 20], [25, 5]] 1 = 25"
proof -
  from solved_scenario obtain ui' where
    run: "solve_transport float_dec
      (window 2 2 [[''8'', ''6''], [''4'', ''9'']] [''20'', ''30''] [''25'', ''25''])
      (Solved 265 [[0, 20], [25, 5]]) ui'" ..
  have bal: "sum_list [20, 30 :: real] = sum_list [25, 25]" by simp
  from balanced_flow_conservation [OF run read_scenario bal]
  have "row_sum [[0, 20], [25, 5]] 0 = 20 \<and> row_sum [[0, 20], [25, 5]] 1 = 30 \<and>
        col_sum [[0, 20], [25, 5]] 0 = 25 \<and> col_sum [[0, 20], [25, 5]] 1 = 25"
    by (simp add: numeral_2_eq_2 All_less_Suc)
  with run read_scenario bal show ?thesis by blast
qed

text \<open>
  C2, as stated: on every instance with more supply than demand a successful call returns
  the minimum cost of shipping exactly the demanded quantities. With the cost -1, the
  supply 10 and the demand 5 the call returns -10, the cost of shipping 10 units, where
  shipping exactly the 5 units demanded costs -5.
\<close>

theorem surplus_cost_not_exact_minimum:
  "sum_list [5] < sum_list [10 :: real] \<and>
   read_instance float_dec (window 1 1 [[''-1'']] [''10''] [''5'']) = Inr (fin_inst [[-1]] [10] [5]) \<and>
   solve_transport float_dec (window 1 1 [[''-1'']] [''10''] [''5'']) (Solved (-10) [[10]])
     ((window 1 1 [[''-1'']] [''10''] [''5''])
        \<lparr>result_label := ''-10.00'', result_table := table 1 1 [[''10.00'']]\<rparr>) \<and>
   \<not> min_cost_exact [[-1]] [10] [5] (-10) \<and>
   min_cost_exact [[-1]] [10] [5] (-5)"
proof (intro conjI)
  show "sum_list [5] < sum_list [10 :: real]" by simp
  show "solve_transport float_dec (window 1 1 [[''-1'']] [''10''] [''5'']) (Solved (-10) [[10]])
     ((window 1 1 [[''-1'']] [''10''] [''5''])
        \<lparr>result_label := ''-10.00'', result_table := table 1 1 [[''10.00'']]\<rparr>)"
    using solved_negative by (simp only: shown_negative)
qed (rule read_negative not_min_cost_exact_negative min_cost_exact_negative)+

text \<open>
  C2, amended: on every instance with no negative cost and no negative demand whose total
  supply exceeds the total demand, a successful call returns the minimum cost of shipping
  exactly the demanded quantities: some plan that ships every destination exactly its
  demand, within the supplies, has this cost, and no such plan is cheaper.
\<close>

theorem surplus_cost_is_exact_minimum:
  assumes run: "solve_transport float ui (Solved c alloc) ui'"
    and rd: "read_instance float ui = Inr (fin_inst couts offres demandes)"
    and surplus: "sum_list demandes < sum_list offres"
    and costs: "list_all (list_all (\<lambda>v. 0 \<le> v)) couts"
    and demands: "list_all (\<lambda>v. 0 \<le> v) demandes"
  shows "min_cost_exact couts offres demandes c"
proof -
  from run rd obtain x where
    opt: "is_optimal (build_model couts offres demandes (length offres) (length demandes)) x"
    and c: "c = lin_val x (objective (build_model couts offres demandes (length offres) (length demandes)))"
    by (rule solved_optimal)
  have shape: "length couts = length offres"
    "\<forall>i<length offres. length (couts ! i) = length demandes"
    using read_instance_shape [OF rd] by simp_all
  have c0: "\<forall>i<length offres. \<forall>j<length demandes. 0 \<le> couts ! i ! j"
    using costs shape by (simp add: list_all_length)
  have d0: "\<forall>j<length demandes. 0 \<le> demandes ! j"
    using demands by (simp add: list_all_length)
  from opt c0 d0 show ?thesis
    unfolding c by (rule optimal_is_min_cost_exact)
qed

theorem surplus_cost_is_exact_minimum_witness:
  "solve_transport float_dec (window 2 1 [[''2''], [''3'']] [''6'', ''6''] [''8''])
     (Solved 18 [[6], [2]])
     (show_solution 2 1 18 (\<lambda>(i, j). [[6], [2]] ! i ! j)
        (window 2 1 [[''2''], [''3'']] [''6'', ''6''] [''8''])) \<and>
   read_instance float_dec (window 2 1 [[''2''], [''3'']] [''6'', ''6''] [''8''])
     = Inr (fin_inst [[2], [3]] [6, 6] [8]) \<and>
   sum_list [8] < sum_list [6, 6 :: real] \<and>
   list_all (list_all (\<lambda>v. 0 \<le> v)) [[2], [3 :: real]] \<and>
   list_all (\<lambda>v. 0 \<le> v) [8 :: real] \<and>
   min_cost_exact [[2], [3]] [6, 6] [8] 18"
proof -
  have surplus: "sum_list [8] < sum_list [6, 6 :: real]" by simp
  have costs: "list_all (list_all (\<lambda>v. 0 \<le> v)) [[2], [3 :: real]]" by simp
  have demands: "list_all (\<lambda>v. 0 \<le> v) [8 :: real]" by simp
  from surplus_cost_is_exact_minimum [OF solved_surplus read_surplus surplus costs demands]
    solved_surplus read_surplus surplus costs demands
  show ?thesis by (intro conjI)
qed

text \<open>
  C3. Whenever the call succeeds, every entry of the shipment matrix returned is greater
  than or equal to zero.
\<close>

theorem allocation_nonnegative:
  assumes "solve_transport float ui (Solved c alloc) ui'"
  shows "list_all (list_all (\<lambda>v. 0 \<le> v)) alloc"
  using assms by (rule solved_nonneg)

theorem allocation_nonnegative_witness:
  "(\<exists>ui'. solve_transport float_dec
      (window 2 2 [[''8'', ''6''], [''4'', ''9'']] [''20'', ''30''] [''25'', ''25''])
      (Solved 265 [[0, 20], [25, 5]]) ui') \<and>
   list_all (list_all (\<lambda>v. 0 \<le> v)) [[0, 20], [25, 5 :: real]]"
proof -
  from solved_scenario obtain ui' where
    run: "solve_transport float_dec
      (window 2 2 [[''8'', ''6''], [''4'', ''9'']] [''20'', ''30''] [''25'', ''25''])
      (Solved 265 [[0, 20], [25, 5]]) ui'" ..
  from allocation_nonnegative [OF run] run show ?thesis by blast
qed







text \<open>
  C6, as stated: every failure comes back as a typed result of the taxonomy, never as one
  undifferentiated message. With a demand of 10 above the supply of 5 the call ends with
  the warning box and nothing else, and the report is the same whether the solver's
  status is \<open>INFEASIBLE\<close>, \<open>UNBOUNDED\<close> or \<open>TIME_LIMIT\<close>.
\<close>

theorem failure_is_one_message:
  "read_instance float_dec (window 1 1 [[''1'']] [''5''] [''10''])
     = Inr (fin_inst [[1]] [5] [10]) \<and>
   solve_transport float_dec (window 1 1 [[''1'']] [''5''] [''10'']) Avertissement
     (window 1 1 [[''1'']] [''5''] [''10'']) \<and>
   report 1 1 \<lparr>status = INFEASIBLE, objVal = 0, X = (\<lambda>_. 0)\<rparr>
       (window 1 1 [[''1'']] [''5''] [''10''])
     = (Avertissement, window 1 1 [[''1'']] [''5''] [''10'']) \<and>
   report 1 1 \<lparr>status = UNBOUNDED, objVal = 0, X = (\<lambda>_. 0)\<rparr>
       (window 1 1 [[''1'']] [''5''] [''10''])
     = (Avertissement, window 1 1 [[''1'']] [''5''] [''10'']) \<and>
   report 1 1 \<lparr>status = TIME_LIMIT, objVal = 0, X = (\<lambda>_. 0)\<rparr>
       (window 1 1 [[''1'']] [''5''] [''10''])
     = (Avertissement, window 1 1 [[''1'']] [''5''] [''10''])"
proof (intro conjI)
  show "read_instance float_dec (window 1 1 [[''1'']] [''5''] [''10''])
     = Inr (fin_inst [[1]] [5] [10])"
    by (rule read_infeasible)
  show "solve_transport float_dec (window 1 1 [[''1'']] [''5''] [''10'']) Avertissement
     (window 1 1 [[''1'']] [''5''] [''10''])"
    using read_infeasible by (rule solve_transport_AvertissementI)
qed (simp_all only: report_def grb_result.simps grb_status.distinct if_False)

text \<open>
  C6, amended: a call that fails writes no widget, so the window keeps what it showed
  before, and it reports the failure in one of two boxes. The warning box, the same for
  every solver status other than \<open>OPTIMAL\<close>, is shown when the tables were read and
  all values are finite. The critical box shows the exception caught: the \<open>ValueError\<close>
  of the first text that \<open>float\<close> rejects, or an error raised by the solver library after
  the tables were read, which is how the call ends whenever a cost read is \<open>inf\<close>,
  \<open>-inf\<close> or \<open>nan\<close>.
\<close>

theorem failures_are_two_boxes:
  assumes "solve_transport float ui out ui'"
  shows "(case out of
            Solved c alloc \<Rightarrow> True
          | Avertissement \<Rightarrow>
              ui' = ui \<and> (\<exists>inst. read_instance float ui = Inr inst \<and> all_finite inst)
          | Erreur e \<Rightarrow>
              ui' = ui \<and>
              (read_instance float ui = Inl e \<or>
               (e = GurobiError \<and> (\<exists>inst. read_instance float ui = Inr inst)))) \<and>
         (\<forall>couts offres demandes.
            read_instance float ui = Inr (couts, offres, demandes) \<and>
            \<not> list_all (list_all is_Finite) couts \<longrightarrow>
            out = Erreur GurobiError \<and> ui' = ui)"
proof (intro conjI allI impI)
  show "case out of
            Solved c alloc \<Rightarrow> True
          | Avertissement \<Rightarrow>
              ui' = ui \<and> (\<exists>inst. read_instance float ui = Inr inst \<and> all_finite inst)
          | Erreur e \<Rightarrow>
              ui' = ui \<and>
              (read_instance float ui = Inl e \<or>
               (e = GurobiError \<and> (\<exists>inst. read_instance float ui = Inr inst)))"
    using assms by (rule solve_transport_failure)
next
  fix couts offres demandes
  assume "read_instance float ui = Inr (couts, offres, demandes) \<and>
            \<not> list_all (list_all is_Finite) couts"
  then have rd: "read_instance float ui = Inr (couts, offres, demandes)"
    and "\<not> all_finite (couts, offres, demandes)"
    by (simp_all add: all_finite_def)
  from solve_transport_not_finite [OF this assms]
  show "out = Erreur GurobiError" "ui' = ui" by simp_all
qed

theorem failures_are_two_boxes_witness:
  "solve_transport float_dec (window 1 1 [[''abc'']] [''5''] [''5''])
     (Erreur (ValueError ''abc'')) (window 1 1 [[''abc'']] [''5''] [''5'']) \<and>
   read_instance float_dec (window 1 1 [[''abc'']] [''5''] [''5'']) = Inl (ValueError ''abc'') \<and>
   solve_transport float_dec (window 1 1 [[''1'']] [''5''] [''10'']) Avertissement
     (window 1 1 [[''1'']] [''5''] [''10'']) \<and>
   (\<exists>inst. read_instance float_dec (window 1 1 [[''1'']] [''5''] [''10'']) = Inr inst \<and>
      all_finite inst) \<and>
   read_instance float_dec (window 1 1 [[''inf'']] [''5''] [''5''])
     = Inr ([[PosInf]], [Finite 5], [Finite 5]) \<and>
   \<not> list_all (list_all is_Finite) [[PosInf]] \<and>
   solve_transport float_dec (window 1 1 [[''inf'']] [''5''] [''5'']) (Erreur GurobiError)
     (window 1 1 [[''inf'']] [''5''] [''5''])"
proof -
  have run1: "solve_transport float_dec (window 1 1 [[''abc'']] [''5''] [''5''])
      (Erreur (ValueError ''abc'')) (window 1 1 [[''abc'']] [''5''] [''5''])"
    using read_bad_text by (rule solve_transport.raised)
  have run2: "solve_transport float_dec (window 1 1 [[''1'']] [''5''] [''10'']) Avertissement
      (window 1 1 [[''1'']] [''5''] [''10''])"
    using read_infeasible by (rule solve_transport_AvertissementI)
  from failures_are_two_boxes [OF run1, THEN conjunct1] have
    "read_instance float_dec (window 1 1 [[''abc'']] [''5''] [''5'']) = Inl (ValueError ''abc'')"
    by simp
  moreover from failures_are_two_boxes [OF run2, THEN conjunct1] have
    "\<exists>inst. read_instance float_dec (window 1 1 [[''1'']] [''5''] [''10'']) = Inr inst \<and>
      all_finite inst"
    by simp
  moreover have "\<not> list_all (list_all is_Finite) [[PosInf]]"
    by simp
  ultimately show ?thesis
    using run1 run2 read_inf_cost solved_inf_cost by (intro conjI)
qed

text \<open>
  C7. Two runs on identical cost matrix, supply vector and demand vector that both
  succeed return exactly the same total cost (the allocations may differ).
\<close>

theorem same_instance_same_cost:
  assumes "solve_transport float ui (Solved c1 alloc1) ui'"
    and "solve_transport float vi (Solved c2 alloc2) vi'"
    and "read_instance float ui = read_instance float vi"
  shows "c1 = c2"
proof -
  from assms(1) obtain couts offres demandes x where
    rd: "read_instance float ui = Inr (fin_inst couts offres demandes)"
    and x: "is_optimal (build_model couts offres demandes (length offres) (length demandes)) x"
    and c1: "c1 = lin_val x (objective (build_model couts offres demandes (length offres) (length demandes)))"
    by (rule solvedD)
  from rd assms(3) have rd': "read_instance float vi = Inr (fin_inst couts offres demandes)"
    by simp
  from assms(2) rd' obtain y where
    y: "is_optimal (build_model couts offres demandes (length offres) (length demandes)) y"
    and c2: "c2 = lin_val y (objective (build_model couts offres demandes (length offres) (length demandes)))"
    by (rule solved_optimal)
  from x y show ?thesis unfolding c1 c2 by (rule is_optimal_value_unique)
qed

theorem same_instance_same_cost_witness:
  "\<exists>c1 alloc1 ui' c2 alloc2 vi'.
     solve_transport float_dec (window 2 1 [[''1''], [''1'']] [''5'', ''5''] [''5''])
       (Solved c1 alloc1) ui' \<and>
     solve_transport float_dec (window 2 1 [[''1''], [''1'']] [''5'', ''5''] [''5''])
       (Solved c2 alloc2) vi' \<and>
     alloc1 \<noteq> alloc2 \<and> c1 = c2"
proof -
  from solved_tie_first obtain ui' where
    run1: "solve_transport float_dec (window 2 1 [[''1''], [''1'']] [''5'', ''5''] [''5''])
      (Solved 5 [[5], [0]]) ui'" ..
  from solved_tie_second obtain vi' where
    run2: "solve_transport float_dec (window 2 1 [[''1''], [''1'']] [''5'', ''5''] [''5''])
      (Solved 5 [[0], [5]]) vi'" ..
  have "(5::real) = 5"
    using same_instance_same_cost [OF run1 run2 refl] .
  moreover have "[[5], [0::real]] \<noteq> [[0], [5]]" by simp
  ultimately show ?thesis using run1 run2 by blast
qed

text \<open>
  C8, as stated: no state that survives a call is read or written, so what a call leaves
  does not depend on an earlier call. The call writes the result label and the result
  table, which stay in the window: after a first call that shows the cost 5.00, the
  demand is edited to 10 and the second call fails, leaving the window with the first
  call's cost, where the same call in a window that has solved nothing leaves none.
\<close>

theorem earlier_call_survives:
  "solve_transport float_dec (window 1 1 [[''1'']] [''5''] [''5'']) (Solved 5 [[5]])
     ((window 1 1 [[''1'']] [''5''] [''5''])
        \<lparr>result_label := ''5.00'', result_table := table 1 1 [[''5.00'']]\<rparr>) \<and>
   solve_transport float_dec
     ((window 1 1 [[''1'']] [''5''] [''5''])
        \<lparr>result_label := ''5.00'', result_table := table 1 1 [[''5.00'']],
         demande_table := table 1 1 [[''10'']]\<rparr>)
     Avertissement
     ((window 1 1 [[''1'']] [''5''] [''5''])
        \<lparr>result_label := ''5.00'', result_table := table 1 1 [[''5.00'']],
         demande_table := table 1 1 [[''10'']]\<rparr>) \<and>
   result_label
     ((window 1 1 [[''1'']] [''5''] [''5''])
        \<lparr>result_label := ''5.00'', result_table := table 1 1 [[''5.00'']],
         demande_table := table 1 1 [[''10'']]\<rparr>) = ''5.00'' \<and>
   solve_transport float_dec
     ((window 1 1 [[''1'']] [''5''] [''5''])\<lparr>demande_table := table 1 1 [[''10'']]\<rparr>)
     Avertissement
     ((window 1 1 [[''1'']] [''5''] [''5''])\<lparr>demande_table := table 1 1 [[''10'']]\<rparr>) \<and>
   result_label
     ((window 1 1 [[''1'']] [''5''] [''5''])\<lparr>demande_table := table 1 1 [[''10'']]\<rparr>) = []"
proof (intro conjI)
  show "solve_transport float_dec (window 1 1 [[''1'']] [''5''] [''5'']) (Solved 5 [[5]])
     ((window 1 1 [[''1'']] [''5''] [''5''])
        \<lparr>result_label := ''5.00'', result_table := table 1 1 [[''5.00'']]\<rparr>)"
    using solved_first by (simp only: shown_first)
  show "solve_transport float_dec
     ((window 1 1 [[''1'']] [''5''] [''5''])
        \<lparr>result_label := ''5.00'', result_table := table 1 1 [[''5.00'']],
         demande_table := table 1 1 [[''10'']]\<rparr>)
     Avertissement
     ((window 1 1 [[''1'']] [''5''] [''5''])
        \<lparr>result_label := ''5.00'', result_table := table 1 1 [[''5.00'']],
         demande_table := table 1 1 [[''10'']]\<rparr>)"
    using read_second_after by (rule solve_transport_AvertissementI)
  show "solve_transport float_dec
     ((window 1 1 [[''1'']] [''5''] [''5''])\<lparr>demande_table := table 1 1 [[''10'']]\<rparr>)
     Avertissement
     ((window 1 1 [[''1'']] [''5''] [''5''])\<lparr>demande_table := table 1 1 [[''10'']]\<rparr>)"
    using read_second_fresh by (rule solve_transport_AvertissementI)
qed (rule labels_second)+

text \<open>
  C8, amended: a call reads the three input tables only and leaves them as they are, and
  what it returns (the cost and the allocation, the warning, or the error) depends on
  them alone: whatever a call can return in one window it can return in every window
  with the same input tables, whatever was solved there before. A successful call
  writes the result label and the cells of the result table, and these stay in the
  window after the call.
\<close>

theorem solve_reads_inputs_writes_results:
  assumes "solve_transport float ui out ui'"
  shows "(cost_table ui' = cost_table ui \<and> offre_table ui' = offre_table ui \<and>
          demande_table ui' = demande_table ui) \<and>
         (\<forall>vi. cost_table vi = cost_table ui \<and> offre_table vi = offre_table ui \<and>
               demande_table vi = demande_table ui \<longrightarrow>
               (\<exists>vi'. solve_transport float vi out vi')) \<and>
         (case out of
            Solved c alloc \<Rightarrow>
              result_label ui' = fmt2 c \<and>
              (\<forall>i<length alloc. \<forall>j<length (alloc ! i).
                 i < rowCount (result_table ui) \<and> j < columnCount (result_table ui) \<longrightarrow>
                 item (result_table ui') i j = Some (fmt2 (alloc ! i ! j)))
          | Avertissement \<Rightarrow> True
          | Erreur e \<Rightarrow> True)"
proof (intro conjI)
  show "cost_table ui' = cost_table ui" "offre_table ui' = offre_table ui"
    "demande_table ui' = demande_table ui"
    using solve_transport_inputs_kept [OF assms] by simp_all
  show "\<forall>vi. cost_table vi = cost_table ui \<and> offre_table vi = offre_table ui \<and>
               demande_table vi = demande_table ui \<longrightarrow>
               (\<exists>vi'. solve_transport float vi out vi')"
    using solve_transport_same_inputs [OF assms] by blast
  show "case out of
            Solved c alloc \<Rightarrow>
              result_label ui' = fmt2 c \<and>
              (\<forall>i<length alloc. \<forall>j<length (alloc ! i).
                 i < rowCount (result_table ui) \<and> j < columnCount (result_table ui) \<longrightarrow>
                 item (result_table ui') i j = Some (fmt2 (alloc ! i ! j)))
          | Avertissement \<Rightarrow> True
          | Erreur e \<Rightarrow> True"
  proof (cases out)
    case (Solved c alloc)
    with assms have "solve_transport float ui (Solved c alloc) ui'" by simp
    from solved_shown [OF this] Solved show ?thesis by simp
  qed simp_all
qed

theorem solve_reads_inputs_writes_results_witness:
  "solve_transport float_dec (window 1 1 [[''1'']] [''5''] [''5'']) (Solved 5 [[5]])
     (show_solution 1 1 5 (\<lambda>(i, j). [[5]] ! i ! j) (window 1 1 [[''1'']] [''5''] [''5''])) \<and>
   (\<exists>vi'. solve_transport float_dec
      (show_solution 1 1 5 (\<lambda>(i, j). [[5]] ! i ! j) (window 1 1 [[''1'']] [''5''] [''5'']))
      (Solved 5 [[5]]) vi') \<and>
   result_label (show_solution 1 1 5 (\<lambda>(i, j). [[5]] ! i ! j) (window 1 1 [[''1'']] [''5''] [''5'']))
     = fmt2 5"
proof -
  note fact = solve_reads_inputs_writes_results [OF solved_first]
  have same: "cost_table (show_solution 1 1 5 (\<lambda>(i, j). [[5]] ! i ! j) (window 1 1 [[''1'']] [''5''] [''5'']))
        = cost_table (window 1 1 [[''1'']] [''5''] [''5'']) \<and>
      offre_table (show_solution 1 1 5 (\<lambda>(i, j). [[5]] ! i ! j) (window 1 1 [[''1'']] [''5''] [''5'']))
        = offre_table (window 1 1 [[''1'']] [''5''] [''5'']) \<and>
      demande_table (show_solution 1 1 5 (\<lambda>(i, j). [[5]] ! i ! j) (window 1 1 [[''1'']] [''5''] [''5'']))
        = demande_table (window 1 1 [[''1'']] [''5''] [''5''])"
    by (rule fact [THEN conjunct1])
  have again: "\<exists>vi'. solve_transport float_dec
      (show_solution 1 1 5 (\<lambda>(i, j). [[5]] ! i ! j) (window 1 1 [[''1'']] [''5''] [''5'']))
      (Solved 5 [[5]]) vi'"
    by (rule fact [THEN conjunct2, THEN conjunct1, rule_format, OF same])
  have "result_label (show_solution 1 1 5 (\<lambda>(i, j). [[5]] ! i ! j) (window 1 1 [[''1'']] [''5''] [''5'']))
     = fmt2 5"
    using fact [THEN conjunct2, THEN conjunct2] by (simp only: outcome.case)
  with solved_first again show ?thesis by (intro conjI)
qed



text \<open>
  C10. The columns are only bounded from below, so there is an input with a negative cost
  whose optimal allocation ships more than the demand: one source with supply 10, one
  destination with demand 5 and cost -1. The call can succeed, and every successful call
  ships all 10 units, above the demand 5.
\<close>

theorem negative_cost_overships:
  "read_instance float_dec (window 1 1 [[''-1'']] [''10''] [''5'']) = Inr (fin_inst [[-1]] [10] [5]) \<and>
   solve_transport float_dec (window 1 1 [[''-1'']] [''10''] [''5'']) (Solved (-10) [[10]])
     ((window 1 1 [[''-1'']] [''10''] [''5''])
        \<lparr>result_label := ''-10.00'', result_table := table 1 1 [[''10.00'']]\<rparr>) \<and>
   (\<forall>c alloc ui'.
      solve_transport float_dec (window 1 1 [[''-1'']] [''10''] [''5'']) (Solved c alloc) ui' \<longrightarrow>
      alloc = [[10]] \<and> [5] ! 0 < col_sum alloc 0)"
proof (intro conjI allI impI)
  show "read_instance float_dec (window 1 1 [[''-1'']] [''10''] [''5'']) = Inr (fin_inst [[-1]] [10] [5])"
    by (rule read_negative)
  show "solve_transport float_dec (window 1 1 [[''-1'']] [''10''] [''5'']) (Solved (-10) [[10]])
     ((window 1 1 [[''-1'']] [''10''] [''5''])
        \<lparr>result_label := ''-10.00'', result_table := table 1 1 [[''10.00'']]\<rparr>)"
    using solved_negative by (simp only: shown_negative)
next
  fix c alloc ui'
  assume "solve_transport float_dec (window 1 1 [[''-1'']] [''10''] [''5'']) (Solved c alloc) ui'"
  then have alloc: "alloc = [[10]]"
    by (rule solved_negative_only [THEN conjunct2])
  then show "alloc = [[10]]" .
  show "[5] ! 0 < col_sum alloc 0"
    unfolding alloc by (simp add: col_sum_def)
qed

theorem negative_cost_overships_witness:
  "solve_transport float_dec (window 1 1 [[''-1'']] [''10''] [''5'']) (Solved (-10) [[10]])
     ((window 1 1 [[''-1'']] [''10''] [''5''])
        \<lparr>result_label := ''-10.00'', result_table := table 1 1 [[''10.00'']]\<rparr>) \<and>
   [5 :: real] ! 0 < col_sum [[10]] 0"
proof -
  note fact = negative_cost_overships
  have run: "solve_transport float_dec (window 1 1 [[''-1'']] [''10''] [''5'']) (Solved (-10) [[10]])
      ((window 1 1 [[''-1'']] [''10''] [''5''])
         \<lparr>result_label := ''-10.00'', result_table := table 1 1 [[''10.00'']]\<rparr>)"
    by (rule fact [THEN conjunct2, THEN conjunct1])
  have "[5 :: real] ! 0 < col_sum [[10]] 0"
    by (rule fact [THEN conjunct2, THEN conjunct2, rule_format, OF run, THEN conjunct2])
  with run show ?thesis by (intro conjI)
qed

end
